theory Spec2Isabelle
  imports Main
begin

section \<open>The content store of a committed asset\<close>

text \<open>
  The class \<open>CommittedAsset\<close> keeps one memo slot per derived form of an asset's
  content (\<open>content\<close>, \<open>mapBuffer\<close>, \<open>map\<close>, \<open>ast\<close>); each slot holds a promise once
  it has been filled. The cache, the code generator, the source-map library and the
  serializer are collaborators of the class: they are the fields of an environment.

  A promise is modelled by the outcome it settles to: \<open>Inl e\<close> when it rejects with
  \<open>e\<close>, \<open>Inr v\<close> when it fulfils with \<open>v\<close>. A readable stream is modelled the same
  way, by the bytes it delivers or the error it emits. A slot is \<open>None\<close> while the
  field is \<open>undefined\<close>.
\<close>

type_synonym key = string
type_synonym bytes = "nat list"
type_synonym jsstring = "nat list"

text \<open>A JavaScript error: its message and its \<open>code\<close> property, when it has one.\<close>

datatype js_error = JsError (message: string) (code: "string option")

definition NoContentError :: js_error where
  "NoContentError = JsError ''Asset has no content'' None"

type_synonym 'a promise = "js_error + 'a"
type_synonym rstream = "js_error + bytes"

text \<open>
  What a content promise holds: a string (a list of code points), a \<open>Buffer\<close> (a list
  of bytes), or \<open>null\<close>/\<open>undefined\<close>, which \<open>getCode\<close> and \<open>getBuffer\<close> test for.
  The field is declared \<open>?Promise<Buffer | string>\<close>; for each of these values the test
  \<open>typeof content !== 'function'\<close> of \<open>getContent\<close> is true.
\<close>

datatype content_val = Nullish | Str jsstring | Buf bytes

text \<open>
  A value that may be absent, where the code tells \<open>null\<close> from \<open>undefined\<close>: what the
  promises of \<open>getMap\<close> and \<open>getAST\<close> fulfil with.
\<close>

datatype 'a nullable = JsNull | JsUndefined | Defined 'a

record asset_value =
  contentKey :: "key option"
  mapKey :: "key option"
  astKey :: "key option"

record 'sm gen_output =
  gen_content :: content_val
  gen_map :: "'sm option"

text \<open>The calls the class makes to its collaborators, in the order they are made.\<close>

datatype call =
    CacheGetBlob key
  | CacheGetStream key
  | GenerateFromAST
  | NewSourceMap bytes
  | DeserializeRaw bytes

text \<open>
  The collaborators. \<open>cache_getBlob\<close> and \<open>cache_getStream\<close> are
  \<open>options.cache.getBlob\<close> and \<open>options.cache.getStream\<close>; \<open>generateFromAST\<close> is the
  imported code generator, taken as a function of the asset's value (what it does to
  the asset itself is outside this class); \<open>gen_settled\<close> says whether the promise the
  generator returns is already fulfilled when \<open>getContent\<close> attaches its callback, so
  that the callback runs before the caller's own continuation; \<open>buffer_toString\<close> is
  \<open>Buffer.prototype.toString\<close>; \<open>new_SourceMap\<close> and \<open>sm_toBuffer\<close> are the
  constructor and the \<open>toBuffer\<close> method of \<open>@parcel/source-map\<close>.
\<close>

record ('sm, 'ast) env =
  cache_getBlob :: "key \<Rightarrow> bytes promise"
  cache_getStream :: "key \<Rightarrow> rstream"
  generateFromAST :: "asset_value \<Rightarrow> 'sm gen_output promise"
  gen_settled :: bool
  buffer_toString :: "bytes \<Rightarrow> jsstring"
  new_SourceMap :: "bytes \<Rightarrow> 'sm promise"
  sm_toBuffer :: "'sm \<Rightarrow> bytes"
  deserializeRaw :: "bytes \<Rightarrow> 'ast promise"

text \<open>
  The object. \<open>avalue\<close> is the field \<open>value\<close>, \<open>smap\<close> the field \<open>map\<close>. The promise
  of \<open>mapBuffer\<close> fulfils with a buffer or with \<open>undefined\<close>, never with \<open>null\<close>: its
  \<open>None\<close> is \<open>undefined\<close>. Two fields
  are bookkeeping of the model: \<open>thens\<close> queues the callbacks \<open>getContent\<close> has attached
  to a generator promise and that have not run yet (each is given by the content it
  will memoize), and \<open>calls\<close> records the calls made to the collaborators.
\<close>

record ('sm, 'ast) committed_asset =
  avalue :: asset_value
  content :: "content_val promise option"
  mapBuffer :: "bytes option promise option"
  smap :: "'sm nullable promise option"
  ast :: "'ast promise option"
  thens :: "content_val list"
  calls :: "call list"

definition new_asset :: "asset_value \<Rightarrow> ('sm, 'ast) committed_asset" where
  "new_asset v =
     \<lparr>avalue = v, content = None, mapBuffer = None, smap = None, ast = None,
      thens = [], calls = []\<rparr>"

definition record_call :: "call \<Rightarrow> ('sm, 'ast) committed_asset \<Rightarrow> ('sm, 'ast) committed_asset" where
  "record_call c s = s\<lparr>calls := calls s @ [c]\<rparr>"

subsection \<open>Buffers, strings and streams\<close>

text \<open>\<open>Buffer.from\<close> of a string is its UTF-8 encoding; a lone surrogate becomes U+FFFD.\<close>

definition utf8_char :: "nat \<Rightarrow> bytes" where
  "utf8_char c =
     (if c < 128 then [c]
      else if c < 2048 then [192 + c div 64, 128 + c mod 64]
      else if c < 65536 then
        (if 55296 \<le> c \<and> c < 57344 then [239, 191, 189]
         else [224 + c div 4096, 128 + c div 64 mod 64, 128 + c mod 64])
      else [240 + c div 262144, 128 + c div 4096 mod 64, 128 + c div 64 mod 64,
            128 + c mod 64])"

definition utf8_encode :: "jsstring \<Rightarrow> bytes" where
  "utf8_encode s = concat (map utf8_char s)"

text \<open>The bytes a stream ended with a value delivers: none for \<open>undefined\<close>.\<close>

fun bytes_of :: "content_val \<Rightarrow> bytes" where
  "bytes_of Nullish = []"
| "bytes_of (Str x) = utf8_encode x"
| "bytes_of (Buf b) = b"

text \<open>
  Modelled from the spec: \<open>streamFromPromise\<close> and \<open>bufferStream\<close> of \<open>@parcel/utils\<close>
  are not among the sources. The first "wraps the pending resolution in a stream
  adapter", so the stream delivers what the promise fulfils with and fails when it
  rejects; the second drains a stream into a buffer.
\<close>

definition streamFromPromise :: "content_val promise \<Rightarrow> rstream" where
  "streamFromPromise p = (case p of Inl e \<Rightarrow> Inl e | Inr c \<Rightarrow> Inr (bytes_of c))"

definition bufferStream :: "rstream \<Rightarrow> bytes promise" where
  "bufferStream st = st"

text \<open>A promise of a \<open>Buffer\<close>, as the \<open>content\<close> slot holds it.\<close>

definition as_content :: "bytes promise \<Rightarrow> content_val promise" where
  "as_content p = (case p of Inl e \<Rightarrow> Inl e | Inr b \<Rightarrow> Inr (Buf b))"

subsection \<open>getContent\<close>

text \<open>
  \<open>getContent\<close> returns the memoized promise, or a function that opens a stream: on the
  cache (\<open>FromCache\<close>), or on the promise \<open>generated\<close> of the code generator
  (\<open>FromGenerated\<close>). It throws when the asset has neither key.
\<close>

datatype producer = FromCache key | FromGenerated "content_val promise"

datatype content_ref = Producer producer | Promised "content_val promise"

definition getContent ::
  "('sm, 'ast) env \<Rightarrow> ('sm, 'ast) committed_asset \<Rightarrow>
     (js_error + content_ref) \<times> ('sm, 'ast) committed_asset" where
  "getContent env s =
     (case content s of
        Some p \<Rightarrow> (Inr (Promised p), s)
      | None \<Rightarrow>
          (case contentKey (avalue s) of
             Some k \<Rightarrow> (Inr (Producer (FromCache k)), s)
           | None \<Rightarrow>
               (case astKey (avalue s) of
                  Some a \<Rightarrow>
                    (case generateFromAST env (avalue s) of
                       Inl e \<Rightarrow>
                         (Inr (Producer (FromGenerated (Inl e))),
                          record_call GenerateFromAST s)
                     | Inr out \<Rightarrow>
                         (Inr (Producer (FromGenerated (Inr (gen_content out)))),
                          (record_call GenerateFromAST s)
                            \<lparr>thens := thens s @ [gen_content out]\<rparr>))
                | None \<Rightarrow> (Inl NoContentError, s))))"

text \<open>
  The callbacks of \<open>getContent\<close> run when the generator's promise fulfils; each does
  \<open>this.content = Promise.resolve(content)\<close>, so the last one decides the slot.
\<close>

definition run_thens :: "('sm, 'ast) committed_asset \<Rightarrow> ('sm, 'ast) committed_asset" where
  "run_thens s =
     (if thens s = [] then s
      else s\<lparr>content := Some (Inr (last (thens s))), thens := []\<rparr>)"

definition settle_early ::
  "('sm, 'ast) env \<Rightarrow> ('sm, 'ast) committed_asset \<Rightarrow> ('sm, 'ast) committed_asset" where
  "settle_early env s = (if gen_settled env then run_thens s else s)"

text \<open>Calling the function \<open>getContent\<close> returned opens the stream.\<close>

definition produce ::
  "('sm, 'ast) env \<Rightarrow> producer \<Rightarrow> ('sm, 'ast) committed_asset \<Rightarrow>
     rstream \<times> ('sm, 'ast) committed_asset" where
  "produce env src s =
     (case src of
        FromCache k \<Rightarrow> (cache_getStream env k, record_call (CacheGetStream k) s)
      | FromGenerated g \<Rightarrow> (streamFromPromise g, s))"

subsection \<open>getCode, getBuffer and getStream\<close>

text \<open>
  An \<open>async\<close> method runs up to its first \<open>await\<close> when it is called and continues
  later. \<open>getCode_start\<close> and \<open>getBuffer_start\<close> are the first part: \<open>Inl e\<close> when the
  call has thrown (the promise it returned rejects with \<open>e\<close>), \<open>Inr r\<close> when it waits
  for \<open>r\<close>. \<open>getCode_resume\<close> and \<open>getBuffer_resume\<close> are the rest, from the value of
  the first \<open>await\<close> on. The second \<open>await\<close> of \<open>getCode\<close> and the returned promise of
  \<open>getBuffer\<close> wait for the promise just stored in \<open>this.content\<close> and touch the object
  no more, so the rest is one step, which gives the outcome of the call.
\<close>

definition getCode_start ::
  "('sm, 'ast) env \<Rightarrow> ('sm, 'ast) committed_asset \<Rightarrow>
     (js_error + content_ref) \<times> ('sm, 'ast) committed_asset" where
  "getCode_start env s =
     (case (content s, contentKey (avalue s)) of
        (None, Some k) \<Rightarrow>
          (let p = as_content (cache_getBlob env k)
           in (Inr (Promised p), (record_call (CacheGetBlob k) s)\<lparr>content := Some p\<rparr>))
      | _ \<Rightarrow> getContent env s)"

fun getCode_resume ::
  "('sm, 'ast) env \<Rightarrow> content_ref \<Rightarrow> ('sm, 'ast) committed_asset \<Rightarrow>
     jsstring promise \<times> ('sm, 'ast) committed_asset" where
  "getCode_resume env (Promised (Inl e)) s = (Inl e, s)"
| "getCode_resume env (Promised (Inr (Str x))) s = (Inr x, s)"
| "getCode_resume env (Promised (Inr (Buf b))) s = (Inr (buffer_toString env b), s)"
| "getCode_resume env (Promised (Inr Nullish)) s = (Inr [], s)"
| "getCode_resume env (Producer src) s =
     (let (st, s') = produce env src s; p = bufferStream st
      in (case p of Inl e \<Rightarrow> Inl e | Inr b \<Rightarrow> Inr (buffer_toString env b),
          s'\<lparr>content := Some (as_content p)\<rparr>))"

definition getBuffer_start ::
  "('sm, 'ast) env \<Rightarrow> ('sm, 'ast) committed_asset \<Rightarrow>
     (js_error + content_ref) \<times> ('sm, 'ast) committed_asset" where
  "getBuffer_start env s = getContent env s"

fun getBuffer_resume ::
  "('sm, 'ast) env \<Rightarrow> content_ref \<Rightarrow> ('sm, 'ast) committed_asset \<Rightarrow>
     bytes promise \<times> ('sm, 'ast) committed_asset" where
  "getBuffer_resume env (Promised (Inl e)) s = (Inl e, s)"
| "getBuffer_resume env (Promised (Inr Nullish)) s = (Inr [], s)"
| "getBuffer_resume env (Promised (Inr (Str x))) s = (Inr (utf8_encode x), s)"
| "getBuffer_resume env (Promised (Inr (Buf b))) s = (Inr b, s)"
| "getBuffer_resume env (Producer src) s =
     (let (st, s') = produce env src s; p = bufferStream st
      in (p, s'\<lparr>content := Some (as_content p)\<rparr>))"

text \<open>
  A call that is waited for before anything else is done to the asset. The callback of
  \<open>getContent\<close> runs before the continuation when the generator's promise was already
  fulfilled, and in any case before the call's own promise settles.
\<close>

definition getCode ::
  "('sm, 'ast) env \<Rightarrow> ('sm, 'ast) committed_asset \<Rightarrow>
     jsstring promise \<times> ('sm, 'ast) committed_asset" where
  "getCode env s =
     (case getCode_start env s of
        (Inl e, s') \<Rightarrow> (Inl e, s')
      | (Inr r, s') \<Rightarrow>
          (let (p, s'') = getCode_resume env r (settle_early env s')
           in (p, run_thens s'')))"

definition getBuffer ::
  "('sm, 'ast) env \<Rightarrow> ('sm, 'ast) committed_asset \<Rightarrow>
     bytes promise \<times> ('sm, 'ast) committed_asset" where
  "getBuffer env s =
     (case getBuffer_start env s of
        (Inl e, s') \<Rightarrow> (Inl e, s')
      | (Inr r, s') \<Rightarrow>
          (let (p, s'') = getBuffer_resume env r (settle_early env s')
           in (p, run_thens s'')))"

text \<open>
  \<open>getStream\<close> is not \<open>async\<close>: it throws (\<open>Inl\<close>) or returns a stream at once. A
  callback \<open>getContent\<close> attached stays queued.
\<close>

definition getStream ::
  "('sm, 'ast) env \<Rightarrow> ('sm, 'ast) committed_asset \<Rightarrow>
     (js_error + rstream) \<times> ('sm, 'ast) committed_asset" where
  "getStream env s =
     (case getContent env s of
        (Inl e, s') \<Rightarrow> (Inl e, s')
      | (Inr (Promised p), s') \<Rightarrow> (Inr (streamFromPromise p), s')
      | (Inr (Producer src), s') \<Rightarrow>
          (let (st, s'') = produce env src s' in (Inr st, s'')))"

subsection \<open>getMapBuffer, getMap and getAST\<close>

text \<open>
  The \<open>async\<close> function \<open>getMapBuffer\<close> starts: it asks the cache for the blob and,
  when that fails with code \<open>ENOENT\<close> on an asset with an AST key, asks the generator
  for the map. The function is started once per filled slot, so the generator call it
  makes later is recorded with the cache call.
\<close>

definition mapBuffer_task ::
  "('sm, 'ast) env \<Rightarrow> key \<Rightarrow> ('sm, 'ast) committed_asset \<Rightarrow>
     bytes option promise \<times> ('sm, 'ast) committed_asset" where
  "mapBuffer_task env k s =
     (let s1 = record_call (CacheGetBlob k) s
      in case cache_getBlob env k of
           Inr b \<Rightarrow> (Inr (Some b), s1)
         | Inl err \<Rightarrow>
             (if code err = Some ''ENOENT'' \<and> astKey (avalue s) \<noteq> None then
                (case generateFromAST env (avalue s) of
                   Inl e \<Rightarrow> Inl e
                 | Inr out \<Rightarrow> Inr (map_option (sm_toBuffer env) (gen_map out)),
                 record_call GenerateFromAST s1)
              else (Inl err, s1)))"

definition getMapBuffer ::
  "('sm, 'ast) env \<Rightarrow> ('sm, 'ast) committed_asset \<Rightarrow>
     bytes option promise \<times> ('sm, 'ast) committed_asset" where
  "getMapBuffer env s =
     (let s' = (case mapKey (avalue s) of
                  Some k \<Rightarrow>
                    (if mapBuffer s = None then
                       (let (p, s1) = mapBuffer_task env k s in s1\<lparr>mapBuffer := Some p\<rparr>)
                     else s)
                | None \<Rightarrow> s)
      in (case mapBuffer s' of Some p \<Rightarrow> p | None \<Rightarrow> Inr None, s'))"

text \<open>
  The \<open>async\<close> function of \<open>getMap\<close> returns the source map built from the bytes; when
  there are none it ends without a \<open>return\<close>, so its promise fulfils with \<open>undefined\<close>.
\<close>

definition getMap ::
  "('sm, 'ast) env \<Rightarrow> ('sm, 'ast) committed_asset \<Rightarrow>
     'sm nullable promise \<times> ('sm, 'ast) committed_asset" where
  "getMap env s =
     (case smap s of
        Some p \<Rightarrow> (p, s)
      | None \<Rightarrow>
          (let (mb, s1) = getMapBuffer env s;
               (p, s2) =
                 (case mb of
                    Inl e \<Rightarrow> (Inl e, s1)
                  | Inr None \<Rightarrow> (Inr JsUndefined, s1)
                  | Inr (Some b) \<Rightarrow>
                      (case new_SourceMap env b of
                         Inl e \<Rightarrow> Inl e
                       | Inr m \<Rightarrow> Inr (Defined m),
                       record_call (NewSourceMap b) s1))
           in (p, s2\<lparr>smap := Some p\<rparr>)))"

text \<open>\<open>getAST\<close> returns \<open>Promise.resolve(null)\<close> when the asset has no AST key.\<close>

definition getAST ::
  "('sm, 'ast) env \<Rightarrow> ('sm, 'ast) committed_asset \<Rightarrow>
     'ast nullable promise \<times> ('sm, 'ast) committed_asset" where
  "getAST env s =
     (case astKey (avalue s) of
        None \<Rightarrow> (Inr JsNull, s)
      | Some a \<Rightarrow>
          (let s' =
             (case ast s of
                Some p \<Rightarrow> s
              | None \<Rightarrow>
                  (case cache_getBlob env a of
                     Inl e \<Rightarrow> (record_call (CacheGetBlob a) s)\<lparr>ast := Some (Inl e)\<rparr>
                   | Inr b \<Rightarrow>
                       (record_call (DeserializeRaw b) (record_call (CacheGetBlob a) s))
                         \<lparr>ast := Some (deserializeRaw env b)\<rparr>))
           in (case ast s' of
                 Some (Inl e) \<Rightarrow> Inl e
               | Some (Inr t) \<Rightarrow> Inr (Defined t)
               | None \<Rightarrow> Inr JsUndefined,
               s')))"

subsection \<open>The life of an asset\<close>

text \<open>
  Everything that can happen to the object, one event at a time: a call of a method
  that is not \<open>async\<close>, the first part of a call of \<open>getCode\<close> or \<open>getBuffer\<close>, the
  continuation of such a call (with the value its \<open>await\<close> gave), and the callbacks of
  \<open>getContent\<close>. Calls that overlap are events in some order.
\<close>

datatype event =
    CallGetContent
  | StartGetCode
  | ResumeGetCode content_ref
  | StartGetBuffer
  | ResumeGetBuffer content_ref
  | CallGetStream
  | CallGetMapBuffer
  | CallGetMap
  | CallGetAST
  | RunThens

fun apply_event ::
  "('sm, 'ast) env \<Rightarrow> ('sm, 'ast) committed_asset \<Rightarrow> event \<Rightarrow> ('sm, 'ast) committed_asset" where
  "apply_event env s CallGetContent = snd (getContent env s)"
| "apply_event env s StartGetCode = snd (getCode_start env s)"
| "apply_event env s (ResumeGetCode r) = snd (getCode_resume env r s)"
| "apply_event env s StartGetBuffer = snd (getBuffer_start env s)"
| "apply_event env s (ResumeGetBuffer r) = snd (getBuffer_resume env r s)"
| "apply_event env s CallGetStream = snd (getStream env s)"
| "apply_event env s CallGetMapBuffer = snd (getMapBuffer env s)"
| "apply_event env s CallGetMap = snd (getMap env s)"
| "apply_event env s CallGetAST = snd (getAST env s)"
| "apply_event env s RunThens = run_thens s"

definition run_events ::
  "('sm, 'ast) env \<Rightarrow> event list \<Rightarrow> ('sm, 'ast) committed_asset \<Rightarrow> ('sm, 'ast) committed_asset" where
  "run_events env evs s = foldl (apply_event env) s evs"

text \<open>
  Calls of \<open>getCode\<close> that overlap: the asset and the calls in progress. \<open>Call\<close> starts
  one more, \<open>Resume i\<close> continues the \<open>i\<close>-th if it is waiting, \<open>Callbacks\<close> runs the
  callbacks of \<open>getContent\<close>.
\<close>

datatype 'r task = Awaiting content_ref | Returned "'r promise"

datatype action = Call | Resume nat | Callbacks

fun getCode_action ::
  "('sm, 'ast) env \<Rightarrow> ('sm, 'ast) committed_asset \<times> jsstring task list \<Rightarrow> action \<Rightarrow>
     ('sm, 'ast) committed_asset \<times> jsstring task list" where
  "getCode_action env (s, ts) Call =
     (case getCode_start env s of
        (Inl e, s') \<Rightarrow> (s', ts @ [Returned (Inl e)])
      | (Inr r, s') \<Rightarrow> (s', ts @ [Awaiting r]))"
| "getCode_action env (s, ts) (Resume i) =
     (if i < length ts then
        (case ts ! i of
           Awaiting r \<Rightarrow> (let (p, s') = getCode_resume env r s in (s', ts[i := Returned p]))
         | Returned p \<Rightarrow> (s, ts))
      else (s, ts))"
| "getCode_action env (s, ts) Callbacks = (run_thens s, ts)"

definition getCode_calls ::
  "('sm, 'ast) env \<Rightarrow> action list \<Rightarrow> ('sm, 'ast) committed_asset \<Rightarrow>
     ('sm, 'ast) committed_asset \<times> jsstring task list" where
  "getCode_calls env acts s = foldl (getCode_action env) (s, []) acts"

text \<open>Calls of \<open>getBuffer\<close> that overlap, in the same way.\<close>

fun getBuffer_action ::
  "('sm, 'ast) env \<Rightarrow> ('sm, 'ast) committed_asset \<times> bytes task list \<Rightarrow> action \<Rightarrow>
     ('sm, 'ast) committed_asset \<times> bytes task list" where
  "getBuffer_action env (s, ts) Call =
     (case getBuffer_start env s of
        (Inl e, s') \<Rightarrow> (s', ts @ [Returned (Inl e)])
      | (Inr r, s') \<Rightarrow> (s', ts @ [Awaiting r]))"
| "getBuffer_action env (s, ts) (Resume i) =
     (if i < length ts then
        (case ts ! i of
           Awaiting r \<Rightarrow> (let (p, s') = getBuffer_resume env r s in (s', ts[i := Returned p]))
         | Returned p \<Rightarrow> (s, ts))
      else (s, ts))"
| "getBuffer_action env (s, ts) Callbacks = (run_thens s, ts)"

definition getBuffer_calls ::
  "('sm, 'ast) env \<Rightarrow> action list \<Rightarrow> ('sm, 'ast) committed_asset \<Rightarrow>
     ('sm, 'ast) committed_asset \<times> bytes task list" where
  "getBuffer_calls env acts s = foldl (getBuffer_action env) (s, []) acts"

text \<open>How many of the recorded calls satisfy a test.\<close>

definition count_calls :: "(call \<Rightarrow> bool) \<Rightarrow> ('sm, 'ast) committed_asset \<Rightarrow> nat" where
  "count_calls P s = length (filter P (calls s))"

fun is_fetch :: "call \<Rightarrow> bool" where
  "is_fetch (CacheGetBlob k) = True"
| "is_fetch (CacheGetStream k) = True"
| "is_fetch GenerateFromAST = True"
| "is_fetch c = False"

fun is_generate :: "call \<Rightarrow> bool" where
  "is_generate GenerateFromAST = True"
| "is_generate c = False"

fun is_decode :: "call \<Rightarrow> bool" where
  "is_decode (NewSourceMap b) = True"
| "is_decode c = False"

subsection \<open>Invariants of an asset's life\<close>

text \<open>
  An asset without a map key never fills its \<open>mapBuffer\<close> slot; a source map is decoded
  only to fill the \<open>map\<close> slot.
\<close>

definition no_map_key :: "('sm, 'ast) committed_asset \<Rightarrow> bool" where
  "no_map_key s \<longleftrightarrow> mapKey (avalue s) = None \<and> mapBuffer s = None"

definition decoded_once :: "('sm, 'ast) committed_asset \<Rightarrow> bool" where
  "decoded_once s \<longleftrightarrow>
     length (filter is_decode (calls s)) \<le> (if smap s = None then 0 else 1)"

section \<open>Bundles and symbol resolution\<close>

text \<open>
  \<open>MutableBundleGraph.createBundle\<close> and \<open>BundleGraph.getSymbolResolution\<close> are declared
  in \<open>packages/core/types/index.js\<close>, with the types \<open>CreateBundleOptions\<close>, \<open>Bundle\<close> and
  \<open>SymbolResolution\<close>; the functions themselves are not among the sources.
\<close>

type_synonym asset_id = string
type_synonym symbol = string
type_synonym source_loc = nat

subsection \<open>createBundle\<close>

text \<open>The fields of \<open>Asset\<close> that \<open>createBundle\<close> reads.\<close>

record 'e entry_asset =
  asset_ident :: asset_id
  asset_type :: string
  asset_env :: 'e

text \<open>
  \<open>CreateBundleOptions\<close>: a field is \<open>None\<close> when the options leave it out. The type is
  a union of two object types; \<open>well_typed_options\<close> says that the options belong to
  one of them: the first requires \<open>entryAsset\<close>, the second \<open>uniqueKey\<close>, \<open>type\<close> and
  \<open>env\<close>.
\<close>

record ('e, 't) create_bundle_options =
  uniqueKey :: "string option"
  entryAsset :: "'e entry_asset option"
  target :: 't
  isEntry :: "bool option"
  isInline :: "bool option"
  isSplittable :: "bool option"
  opt_type :: "string option"
  opt_env :: "'e option"
  pipeline :: "string option"

definition well_typed_options :: "('e, 't) create_bundle_options \<Rightarrow> bool" where
  "well_typed_options opts \<longleftrightarrow>
     entryAsset opts \<noteq> None \<or>
     (uniqueKey opts \<noteq> None \<and> opt_type opts \<noteq> None \<and> opt_env opts \<noteq> None)"

text \<open>
  A bundle: the key its id is made from, its type, environment and target, and the
  assets it contains.
\<close>

record ('e, 't) bundle_t =
  bundle_key :: string
  bundle_type :: string
  bundle_env :: 'e
  bundle_target :: 't
  members :: "asset_id list"

definition hasAsset :: "('e, 't) bundle_t \<Rightarrow> asset_id \<Rightarrow> bool" where
  "hasAsset b a \<longleftrightarrow> a \<in> set (members b)"

datatype bundle_error = MissingBundleFields

text \<open>
  Modelled from the spec: the body of \<open>createBundle\<close> is missing. "If an entry asset
  is supplied, bundle type/environment/identity are inferred from it; otherwise all of
  type/environment/a unique key must be supplied explicitly. Returns a new Bundle with
  empty membership."
\<close>

definition createBundle ::
  "('e, 't) create_bundle_options \<Rightarrow> bundle_error + ('e, 't) bundle_t" where
  "createBundle opts =
     (case entryAsset opts of
        Some a \<Rightarrow>
          Inr \<lparr>bundle_key = asset_ident a, bundle_type = asset_type a,
               bundle_env = asset_env a, bundle_target = target opts, members = []\<rparr>
      | None \<Rightarrow>
          (case (uniqueKey opts, opt_type opts, opt_env opts) of
             (Some k, Some ty, Some e) \<Rightarrow>
               Inr \<lparr>bundle_key = k, bundle_type = ty, bundle_env = e,
                    bundle_target = target opts, members = []\<rparr>
           | _ \<Rightarrow> Inl MissingBundleFields))"

subsection \<open>getSymbolResolution\<close>

text \<open>
  Modelled from the spec: the graph the resolver walks is built by code that is
  missing. What the resolver reads of an asset is its symbol table (export name to
  local name and location), the local names that re-export another asset's export (the
  asset and the name it exports there), and whether static analysis cleared its
  symbols. A graph lists its assets by id.
\<close>

record symbol_entry =
  local_name :: symbol
  entry_loc :: "source_loc option"

record symbol_asset =
  symbols :: "(symbol \<times> symbol_entry) list"
  reexports :: "(symbol \<times> asset_id \<times> symbol) list"
  isCleared :: bool

type_synonym symbol_graph = "(asset_id \<times> symbol_asset) list"

text \<open>The field \<open>symbol\<close> of a \<open>SymbolResolution\<close> is \<open>void | null | Symbol\<close>.\<close>

datatype resolved_symbol = Undefined | Null | Sym symbol

record symbol_resolution =
  res_asset :: asset_id
  exportSymbol :: symbol
  res_symbol :: resolved_symbol
  res_loc :: "source_loc option"

definition lookup_symbol :: "symbol_graph \<Rightarrow> asset_id \<Rightarrow> symbol \<Rightarrow> symbol_entry option" where
  "lookup_symbol g a x =
     (case map_of g a of None \<Rightarrow> None | Some t \<Rightarrow> map_of (symbols t) x)"

definition lookup_reexport ::
  "symbol_graph \<Rightarrow> asset_id \<Rightarrow> symbol \<Rightarrow> (asset_id \<times> symbol) option" where
  "lookup_reexport g a n =
     (case map_of g a of None \<Rightarrow> None | Some t \<Rightarrow> map_of (reexports t) n)"

definition asset_cleared :: "symbol_graph \<Rightarrow> asset_id \<Rightarrow> bool" where
  "asset_cleared g a = (case map_of g a of None \<Rightarrow> False | Some t \<Rightarrow> isCleared t)"

definition leaves_boundary :: "('e, 't) bundle_t option \<Rightarrow> asset_id \<Rightarrow> bool" where
  "leaves_boundary boundary a =
     (case boundary of None \<Rightarrow> False | Some b \<Rightarrow> \<not> hasAsset b a)"

text \<open>The pairs of an asset and an export name that some symbol table of the graph has.\<close>

definition exported_pairs :: "symbol_graph \<Rightarrow> (asset_id \<times> symbol) list" where
  "exported_pairs g = concat (map (\<lambda>(a, t). map (\<lambda>(x, e). (a, x)) (symbols t)) g)"

lemma lookup_symbol_exported:
  "lookup_symbol g a x = Some e \<Longrightarrow> (a, x) \<in> set (exported_pairs g)"
  by (auto simp: lookup_symbol_def exported_pairs_def split: option.splits
      dest!: map_of_SomeD intro!: bexI)

text \<open>
  Modelled from the spec: the body of \<open>getSymbolResolution\<close> is missing. The resolver
  keeps a pointer (asset, export name), the pairs it has visited and the last location
  it traversed. A pair seen before ends the resolution with \<open>undefined\<close> (the cycle
  guard). Otherwise the export name is looked up in the asset's symbol table: not
  found gives \<open>undefined\<close>; a local name that re-exports another asset's export moves
  the pointer there; a cleared asset gives \<open>null\<close>; a local definition gives its local
  name.

  The boundary is the one of the declaration's own comment in
  \<open>packages/core/types/index.js\<close>, which the spec's boundary rule departs from:
  "stopping at the first asset after leaving \<open>bundle\<close>", "Stop resolving transitively
  once \<open>boundary\<close> was left (\<open>bundle.hasAsset(asset) === false\<close>), then
  \<open>result.symbol\<close> is undefined". The test is made on the asset the resolver stands at.
\<close>

function resolve ::
  "symbol_graph \<Rightarrow> ('e, 't) bundle_t option \<Rightarrow> (asset_id \<times> symbol) list \<Rightarrow>
     asset_id \<Rightarrow> symbol \<Rightarrow> source_loc option \<Rightarrow> symbol_resolution" where
  "resolve g boundary visited a x l =
     (if (a, x) \<in> set visited then
        \<lparr>res_asset = a, exportSymbol = x, res_symbol = Undefined, res_loc = l\<rparr>
      else if leaves_boundary boundary a then
        \<lparr>res_asset = a, exportSymbol = x, res_symbol = Undefined, res_loc = l\<rparr>
      else
        (case lookup_symbol g a x of
           None \<Rightarrow> \<lparr>res_asset = a, exportSymbol = x, res_symbol = Undefined, res_loc = l\<rparr>
         | Some e \<Rightarrow>
             (case lookup_reexport g a (local_name e) of
                Some (a', x') \<Rightarrow> resolve g boundary ((a, x) # visited) a' x' (entry_loc e)
              | None \<Rightarrow>
                  (if asset_cleared g a then
                     \<lparr>res_asset = a, exportSymbol = x, res_symbol = Null,
                      res_loc = entry_loc e\<rparr>
                   else
                     \<lparr>res_asset = a, exportSymbol = x, res_symbol = Sym (local_name e),
                      res_loc = entry_loc e\<rparr>))))"
  by pat_completeness auto
termination
proof (relation "measure (\<lambda>(g, boundary, visited, a, x, l).
    card (set (exported_pairs g) - set visited))")
  show "wf (measure (\<lambda>(g, boundary :: ('e, 't) bundle_t option, visited, a, x, l :: source_loc option).
    card (set (exported_pairs g) - set visited)))"
    by simp
next
  fix g :: symbol_graph and boundary :: "('e, 't) bundle_t option" and visited a x
    and l :: "source_loc option" and e p a' x'
  assume fresh: "(a, x) \<notin> set visited" and found: "lookup_symbol g a x = Some e"
  have "(a, x) \<in> set (exported_pairs g) - set visited"
    using fresh lookup_symbol_exported [OF found] by simp
  then have "card (set (exported_pairs g) - set ((a, x) # visited))
      < card (set (exported_pairs g) - set visited)"
    by (intro psubset_card_mono) auto
  then show "((g, boundary, (a, x) # visited, a', x', entry_loc e),
              (g, boundary, visited, a, x, l))
      \<in> measure (\<lambda>(g, boundary, visited, a, x, l).
          card (set (exported_pairs g) - set visited))"
    by simp
qed

declare resolve.simps [simp del]

text \<open>
  Modelled from the spec: a resolution starts at the given asset and export name, with
  no pair visited and no location traversed.
\<close>

definition getSymbolResolution ::
  "symbol_graph \<Rightarrow> asset_id \<Rightarrow> symbol \<Rightarrow> ('e, 't) bundle_t option \<Rightarrow> symbol_resolution" where
  "getSymbolResolution g a x boundary = resolve g boundary [] a x None"

section \<open>Example assets\<close>

text \<open>
  A cache with a two-byte blob under \<open>c\<close>, an empty blob under \<open>e\<close>, a read error
  under \<open>x\<close> and nothing else; a generator that gives a string and a map.
\<close>

definition sample_cache :: "key \<Rightarrow> bytes promise" where
  "sample_cache k =
     (if k = ''c'' then Inr [104, 105]
      else if k = ''e'' then Inr []
      else if k = ''x'' then Inl (JsError ''read failed'' (Some ''EIO''))
      else Inl (JsError ''not found'' (Some ''ENOENT'')))"

definition sample_env :: "(bytes, bytes) env" where
  "sample_env =
     \<lparr>cache_getBlob = sample_cache, cache_getStream = sample_cache,
      generateFromAST = (\<lambda>v. Inr \<lparr>gen_content = Str [111, 107], gen_map = Some [1, 2]\<rparr>),
      gen_settled = False, buffer_toString = (\<lambda>b. b), new_SourceMap = (\<lambda>b. Inr b),
      sm_toBuffer = (\<lambda>m. m), deserializeRaw = (\<lambda>b. Inr b)\<rparr>"

definition empty_gen_env :: "(bytes, bytes) env" where
  "empty_gen_env =
     sample_env\<lparr>generateFromAST := (\<lambda>v. Inr \<lparr>gen_content = Str [], gen_map = None\<rparr>)\<rparr>"

definition asset_keys :: "key option \<Rightarrow> key option \<Rightarrow> key option \<Rightarrow> asset_value" where
  "asset_keys c m a = \<lparr>contentKey = c, mapKey = m, astKey = a\<rparr>"

definition sample_asset ::
  "key option \<Rightarrow> key option \<Rightarrow> key option \<Rightarrow> (bytes, bytes) committed_asset" where
  "sample_asset c m a = new_asset (asset_keys c m a)"

text \<open>Two assets that export \<open>X\<close> from each other, and a bundle that holds the first.\<close>

definition cycle_graph :: symbol_graph where
  "cycle_graph =
     [(''a'', \<lparr>symbols = [(''X'', \<lparr>local_name = ''x1'', entry_loc = Some 1\<rparr>)],
              reexports = [(''x1'', ''b'', ''X'')], isCleared = False\<rparr>),
      (''b'', \<lparr>symbols = [(''X'', \<lparr>local_name = ''x2'', entry_loc = Some 2\<rparr>)],
              reexports = [(''x2'', ''a'', ''X'')], isCleared = False\<rparr>)]"


definition entry_options :: "(nat, unit) create_bundle_options" where
  "entry_options =
     \<lparr>uniqueKey = None,
      entryAsset = Some \<lparr>asset_ident = ''a'', asset_type = ''js'', asset_env = 7\<rparr>,
      target = (), isEntry = None, isInline = None, isSplittable = None,
      opt_type = None, opt_env = None, pipeline = None\<rparr>"

definition explicit_options :: "(nat, unit) create_bundle_options" where
  "explicit_options =
     \<lparr>uniqueKey = Some ''shared'', entryAsset = None,
      target = (), isEntry = None, isInline = None, isSplittable = None,
      opt_type = Some ''css'', opt_env = Some 3, pipeline = None\<rparr>"

section \<open>Properties of the content store\<close>

lemmas sample_defs = sample_cache_def sample_env_def empty_gen_env_def asset_keys_def
  sample_asset_def new_asset_def

lemmas store_defs = getContent_def produce_def bufferStream_def settle_early_def
  run_thens_def record_call_def streamFromPromise_def as_content_def

subsection \<open>What each part leaves alone\<close>

lemma getContent_frame:
  "avalue (snd (getContent env s)) = avalue s"
  "mapBuffer (snd (getContent env s)) = mapBuffer s"
  "smap (snd (getContent env s)) = smap s"
  "filter is_decode (calls (snd (getContent env s))) = filter is_decode (calls s)"
  by (auto simp: getContent_def record_call_def split: option.splits sum.splits)

lemma getCode_start_frame:
  "avalue (snd (getCode_start env s)) = avalue s"
  "mapBuffer (snd (getCode_start env s)) = mapBuffer s"
  "smap (snd (getCode_start env s)) = smap s"
  "filter is_decode (calls (snd (getCode_start env s))) = filter is_decode (calls s)"
  by (auto simp: getCode_start_def getContent_frame record_call_def Let_def
      split: option.splits)

lemma getCode_resume_frame:
  "avalue (snd (getCode_resume env r s)) = avalue s"
  "mapBuffer (snd (getCode_resume env r s)) = mapBuffer s"
  "smap (snd (getCode_resume env r s)) = smap s"
  "filter is_decode (calls (snd (getCode_resume env r s))) = filter is_decode (calls s)"
  by (induction env r s rule: getCode_resume.induct)
     (auto simp: produce_def record_call_def Let_def split: producer.splits prod.splits)

lemma getBuffer_resume_frame:
  "avalue (snd (getBuffer_resume env r s)) = avalue s"
  "mapBuffer (snd (getBuffer_resume env r s)) = mapBuffer s"
  "smap (snd (getBuffer_resume env r s)) = smap s"
  "filter is_decode (calls (snd (getBuffer_resume env r s))) = filter is_decode (calls s)"
  by (induction env r s rule: getBuffer_resume.induct)
     (auto simp: produce_def record_call_def Let_def split: producer.splits prod.splits)

lemma getStream_frame:
  "avalue (snd (getStream env s)) = avalue s"
  "mapBuffer (snd (getStream env s)) = mapBuffer s"
  "smap (snd (getStream env s)) = smap s"
  "filter is_decode (calls (snd (getStream env s))) = filter is_decode (calls s)"
  by (auto simp: getStream_def getContent_def produce_def record_call_def Let_def
      split: option.splits sum.splits producer.splits)

lemma getAST_frame:
  "avalue (snd (getAST env s)) = avalue s"
  "mapBuffer (snd (getAST env s)) = mapBuffer s"
  "smap (snd (getAST env s)) = smap s"
  "filter is_decode (calls (snd (getAST env s))) = filter is_decode (calls s)"
  by (auto simp: getAST_def record_call_def Let_def split: option.splits sum.splits)

lemma run_thens_frame:
  "avalue (run_thens s) = avalue s" "mapBuffer (run_thens s) = mapBuffer s"
  "smap (run_thens s) = smap s" "calls (run_thens s) = calls s"
  by (simp_all add: run_thens_def)

lemma getMapBuffer_frame:
  "avalue (snd (getMapBuffer env s)) = avalue s \<and>
   smap (snd (getMapBuffer env s)) = smap s \<and>
   filter is_decode (calls (snd (getMapBuffer env s))) = filter is_decode (calls s) \<and>
   (mapKey (avalue s) = None \<longrightarrow> mapBuffer (snd (getMapBuffer env s)) = mapBuffer s)"
  by (auto simp: getMapBuffer_def mapBuffer_task_def record_call_def Let_def
      split: option.splits sum.splits prod.splits)

lemma getMap_frame:
  "avalue (snd (getMap env s)) = avalue s \<and>
   (mapKey (avalue s) = None \<longrightarrow> mapBuffer (snd (getMap env s)) = mapBuffer s)"
  using getMapBuffer_frame [of env s]
  by (auto simp: getMap_def record_call_def Let_def
      split: option.splits sum.splits prod.splits)

lemma getMap_decodes:
  "(smap s \<noteq> None \<longrightarrow> snd (getMap env s) = s) \<and>
   smap (snd (getMap env s)) \<noteq> None \<and>
   length (filter is_decode (calls (snd (getMap env s))))
     \<le> (if smap s = None then Suc (length (filter is_decode (calls s)))
         else length (filter is_decode (calls s)))"
  using getMapBuffer_frame [of env s]
  by (auto simp: getMap_def record_call_def Let_def
      split: option.splits sum.splits prod.splits)

subsection \<open>Two invariants of an asset's life\<close>

lemma no_map_key_event: "no_map_key s \<Longrightarrow> no_map_key (apply_event env s ev)"
  using getMapBuffer_frame [of env s] getMap_frame [of env s]
  by (cases ev)
     (simp_all add: no_map_key_def getBuffer_start_def getCode_resume_frame
        getBuffer_resume_frame getContent_frame getCode_start_frame getStream_frame
        getAST_frame run_thens_frame)

lemma no_map_key_events: "no_map_key s \<Longrightarrow> no_map_key (run_events env evs s)"
  unfolding run_events_def
  by (induction evs arbitrary: s) (simp_all add: no_map_key_event)

lemma decoded_once_event: "decoded_once s \<Longrightarrow> decoded_once (apply_event env s ev)"
  using getMapBuffer_frame [of env s] getMap_decodes [of s env]
  by (cases ev)
     (auto simp: decoded_once_def getBuffer_start_def getCode_resume_frame
        getBuffer_resume_frame getContent_frame getCode_start_frame getStream_frame
        getAST_frame run_thens_frame split: if_splits)

lemma decoded_once_events: "decoded_once s \<Longrightarrow> decoded_once (run_events env evs s)"
  unfolding run_events_def
  by (induction evs arbitrary: s) (simp_all add: decoded_once_event)

subsection \<open>Overlapping calls of getCode\<close>

lemma getCode_resume_promised:
  "\<exists>r. \<forall>s. getCode_resume env (Promised p) s = (r, s)"
proof (cases p)
  case (Inl e)
  then show ?thesis by simp
next
  case (Inr c)
  then show ?thesis by (cases c) simp_all
qed

lemma getCode_first_call:
  assumes "content s = None" and "thens s = []" and "contentKey (avalue s) = Some k"
  shows "getCode_start env s =
           (Inr (Promised (as_content (cache_getBlob env k))),
            (record_call (CacheGetBlob k) s)
              \<lparr>content := Some (as_content (cache_getBlob env k))\<rparr>)"
    and "getCode env s =
           (fst (getCode_resume env (Promised (as_content (cache_getBlob env k))) s),
            (record_call (CacheGetBlob k) s)
              \<lparr>content := Some (as_content (cache_getBlob env k))\<rparr>)"
proof -
  show start: "getCode_start env s =
           (Inr (Promised (as_content (cache_getBlob env k))),
            (record_call (CacheGetBlob k) s)
              \<lparr>content := Some (as_content (cache_getBlob env k))\<rparr>)"
    using assms by (simp add: getCode_start_def Let_def)
  obtain r where r:
    "\<And>s. getCode_resume env (Promised (as_content (cache_getBlob env k))) s = (r, s)"
    using getCode_resume_promised by blast
  show "getCode env s =
           (fst (getCode_resume env (Promised (as_content (cache_getBlob env k))) s),
            (record_call (CacheGetBlob k) s)
              \<lparr>content := Some (as_content (cache_getBlob env k))\<rparr>)"
    using assms
    by (simp add: getCode_def start settle_early_def run_thens_def record_call_def r)
qed

lemma getCode_action_shared:
  assumes "content s1 = Some p" and "thens s1 = []"
    and "\<forall>t \<in> set ts. t = Awaiting (Promised p) \<or> t = Returned r"
    and "r = fst (getCode_resume env (Promised p) s1)"
  shows "\<exists>ts'. getCode_action env (s1, ts) a = (s1, ts') \<and>
           length ts' = length ts + (if a = Call then 1 else 0) \<and>
           (\<forall>t \<in> set ts'. t = Awaiting (Promised p) \<or> t = Returned r)"
proof (cases a)
  case Call
  with assms show ?thesis
    by (auto simp: getCode_start_def getContent_def)
next
  case (Resume i)
  show ?thesis
  proof (cases "i < length ts")
    case False
    with Resume assms show ?thesis by simp
  next
    case True
    then have "ts ! i \<in> set ts" by simp
    with assms consider "ts ! i = Awaiting (Promised p)" | "ts ! i = Returned r"
      by blast
    then show ?thesis
    proof cases
      case 1
      obtain r' where r': "\<And>s. getCode_resume env (Promised p) s = (r', s)"
        using getCode_resume_promised by blast
      have "getCode_action env (s1, ts) a = (s1, ts[i := Returned r])"
        using Resume True 1 assms(4) by (simp add: r')
      moreover have "\<forall>t \<in> set (ts[i := Returned r]). t = Awaiting (Promised p) \<or> t = Returned r"
        using assms(3) by (metis insert_iff set_update_subset_insert subsetD)
      ultimately show ?thesis using Resume by simp
    next
      case 2
      with Resume True assms show ?thesis by simp
    qed
  qed
next
  case Callbacks
  with assms show ?thesis by (simp add: run_thens_def)
qed

lemma getCode_calls_shared:
  assumes "content s = None" and "thens s = []" and "contentKey (avalue s) = Some k"
  shows "\<exists>ts. getCode_calls env acts s =
             (if Call \<in> set acts then snd (getCode env s) else s, ts) \<and>
           length ts = length (filter (\<lambda>a. a = Call) acts) \<and>
           (\<forall>t \<in> set ts. t = Awaiting (Promised (as_content (cache_getBlob env k))) \<or>
                         t = Returned (fst (getCode env s)))"
proof (induction acts rule: rev_induct)
  case Nil
  show ?case by (simp add: getCode_calls_def)
next
  case (snoc a acts)
  let ?p = "as_content (cache_getBlob env k)"
  let ?s1 = "snd (getCode env s)"
  let ?r = "fst (getCode env s)"
  from snoc obtain ts where ts:
    "getCode_calls env acts s = (if Call \<in> set acts then ?s1 else s, ts)"
    "length ts = length (filter (\<lambda>a. a = Call) acts)"
    "\<forall>t \<in> set ts. t = Awaiting (Promised ?p) \<or> t = Returned ?r"
    by blast
  have step: "getCode_calls env (acts @ [a]) s = getCode_action env (getCode_calls env acts s) a"
    by (simp add: getCode_calls_def)
  have s1: "content ?s1 = Some ?p" "thens ?s1 = []"
    using assms by (simp_all add: getCode_first_call record_call_def)
  have r: "?r = fst (getCode_resume env (Promised ?p) ?s1)"
  proof -
    obtain r' where r': "\<And>s. getCode_resume env (Promised ?p) s = (r', s)"
      using getCode_resume_promised by blast
    show ?thesis using assms by (simp add: getCode_first_call r')
  qed
  show ?case
  proof (cases "Call \<in> set acts")
    case True
    from getCode_action_shared [OF s1 ts(3) r, of a] obtain ts' where
      "getCode_action env (?s1, ts) a = (?s1, ts')"
      "length ts' = length ts + (if a = Call then 1 else 0)"
      "\<forall>t \<in> set ts'. t = Awaiting (Promised ?p) \<or> t = Returned ?r"
      by blast
    with True ts step show ?thesis by auto
  next
    case False
    then have "filter (\<lambda>a. a = Call) acts = []" by (auto simp: filter_empty_conv)
    then have nil: "ts = []" using ts(2) by simp
    show ?thesis
    proof (cases a)
      case Call
      with False nil ts step assms show ?thesis
        by (simp add: getCode_first_call)
    next
      case (Resume i)
      with False nil ts step show ?thesis by simp
    next
      case Callbacks
      with False nil ts step assms show ?thesis by (simp add: run_thens_def)
    qed
  qed
qed

section \<open>The claims\<close>

text \<open>
  C1, as amended, for an asset with a content key, no memoized content and no callback
  pending. Any number of calls of \<open>getCode\<close> that overlap in any order make one call
  to the cache (\<open>getBlob\<close> of the content key) and nothing else, and every call that
  has returned holds the same outcome, the one a single call gives. A call of
  \<open>getBuffer\<close> that is waited for opens one stream on the cache and stores the buffered
  bytes in the \<open>content\<close> slot, and a call made after it makes no call and gives the
  same bytes. \<open>getStream\<close> opens a stream on the cache and memoizes nothing, so each
  call opens its own. On any asset, a second call of \<open>getMapBuffer\<close>, \<open>getMap\<close> or
  \<open>getAST\<close> gives what the first gave and leaves the asset, and so the record of
  calls, as it is. Nothing is said of calls of \<open>getBuffer\<close> that overlap, nor of calls
  of \<open>getCode\<close> that overlap on an asset with only an AST key: both fill the slot after
  they have suspended.
\<close>

theorem memo_slot_filled_before_suspending:
  assumes "content s = None" and "thens s = []" and "contentKey (avalue s) = Some k"
  shows "calls (fst (getCode_calls env acts s)) =
           calls s @ (if Call \<in> set acts then [CacheGetBlob k] else []) \<and>
         length (snd (getCode_calls env acts s)) = length (filter (\<lambda>a. a = Call) acts) \<and>
         (\<forall>t \<in> set (snd (getCode_calls env acts s)).
            t = Awaiting (Promised (as_content (cache_getBlob env k))) \<or>
            t = Returned (fst (getCode env s))) \<and>
         getMapBuffer env' (snd (getMapBuffer env s')) =
           (fst (getMapBuffer env s'), snd (getMapBuffer env s')) \<and>
         getMap env' (snd (getMap env s')) = (fst (getMap env s'), snd (getMap env s')) \<and>
         getAST env' (snd (getAST env s')) = (fst (getAST env s'), snd (getAST env s')) \<and>
         getStream env s = (Inr (cache_getStream env k), s\<lparr>calls := calls s @ [CacheGetStream k]\<rparr>) \<and>
         calls (snd (getBuffer env s)) = calls s @ [CacheGetStream k] \<and>
         content (snd (getBuffer env s)) =
           Some (as_content (bufferStream (cache_getStream env k))) \<and>
         getBuffer env' (snd (getBuffer env s)) = (fst (getBuffer env s), snd (getBuffer env s))"
proof -
  from getCode_calls_shared [OF assms, of env acts] obtain ts where ts:
    "getCode_calls env acts s = (if Call \<in> set acts then snd (getCode env s) else s, ts)"
    "length ts = length (filter (\<lambda>a. a = Call) acts)"
    "\<forall>t \<in> set ts. t = Awaiting (Promised (as_content (cache_getBlob env k))) \<or>
                   t = Returned (fst (getCode env s))"
    by blast
  have "calls (snd (getCode env s)) = calls s @ [CacheGetBlob k]"
    using assms by (simp add: getCode_first_call record_call_def)
  with ts have code: "calls (fst (getCode_calls env acts s)) =
           calls s @ (if Call \<in> set acts then [CacheGetBlob k] else []) \<and>
         length (snd (getCode_calls env acts s)) = length (filter (\<lambda>a. a = Call) acts) \<and>
         (\<forall>t \<in> set (snd (getCode_calls env acts s)).
            t = Awaiting (Promised (as_content (cache_getBlob env k))) \<or>
            t = Returned (fst (getCode env s)))"
    by simp
  have mb: "getMapBuffer env' (snd (getMapBuffer env s')) =
           (fst (getMapBuffer env s'), snd (getMapBuffer env s'))"
    by (auto simp: getMapBuffer_def mapBuffer_task_def record_call_def Let_def
        split: option.splits sum.splits prod.splits)
  have m: "getMap env' (snd (getMap env s')) = (fst (getMap env s'), snd (getMap env s'))"
    by (auto simp: getMap_def Let_def split: option.splits sum.splits prod.splits)
  have a: "getAST env' (snd (getAST env s')) = (fst (getAST env s'), snd (getAST env s'))"
    by (auto simp: getAST_def record_call_def Let_def split: option.splits sum.splits)
  have st: "getStream env s =
      (Inr (cache_getStream env k), s\<lparr>calls := calls s @ [CacheGetStream k]\<rparr>)"
    using assms by (simp add: getStream_def getContent_def produce_def record_call_def)
  have first: "getBuffer env s =
      (bufferStream (cache_getStream env k),
       s\<lparr>calls := calls s @ [CacheGetStream k],
         content := Some (as_content (bufferStream (cache_getStream env k)))\<rparr>)"
    using assms by (simp add: getBuffer_def getBuffer_start_def store_defs)
  have later: "getBuffer env' (snd (getBuffer env s)) =
      (fst (getBuffer env s), snd (getBuffer env s))"
    using assms unfolding first
    by (cases "cache_getStream env k")
       (simp_all add: getBuffer_def getBuffer_start_def store_defs)
  from first have buf: "calls (snd (getBuffer env s)) = calls s @ [CacheGetStream k]"
    "content (snd (getBuffer env s)) =
       Some (as_content (bufferStream (cache_getStream env k)))"
    by simp_all
  from code mb m a st buf later show ?thesis by blast
qed

theorem memo_slot_filled_before_suspending_witness:
  "content (sample_asset (Some ''c'') (Some ''m'') (Some ''a'')) = None \<and>
   thens (sample_asset (Some ''c'') (Some ''m'') (Some ''a'')) = [] \<and>
   contentKey (avalue (sample_asset (Some ''c'') (Some ''m'') (Some ''a''))) = Some ''c'' \<and>
   calls (fst (getCode_calls sample_env [Call, Call, Resume 0, Call, Resume 2, Resume 1]
      (sample_asset (Some ''c'') (Some ''m'') (Some ''a'')))) = [CacheGetBlob ''c''] \<and>
   snd (getCode_calls sample_env [Call, Call, Resume 0, Call, Resume 2, Resume 1]
      (sample_asset (Some ''c'') (Some ''m'') (Some ''a''))) =
     [Returned (Inr [104, 105]), Returned (Inr [104, 105]), Returned (Inr [104, 105])] \<and>
   getMapBuffer sample_env
      (snd (getMapBuffer sample_env (sample_asset (Some ''c'') (Some ''m'') (Some ''a'')))) =
     (Inr (Some [1, 2]),
      snd (getMapBuffer sample_env (sample_asset (Some ''c'') (Some ''m'') (Some ''a''))))"
proof -
  let ?s = "sample_asset (Some ''c'') (Some ''m'') (Some ''a'')"
  let ?acts = "[Call, Call, Resume 0, Call, Resume 2, Resume 1]"
  have h: "content ?s = None" "thens ?s = []" "contentKey (avalue ?s) = Some ''c''"
    by (simp_all add: sample_defs)
  note shared = memo_slot_filled_before_suspending [OF h, of sample_env ?acts sample_env ?s]
  from shared have "calls (fst (getCode_calls sample_env ?acts ?s)) =
      calls ?s @ (if Call \<in> set ?acts then [CacheGetBlob ''c''] else [])"
    by blast
  moreover have "calls ?s = []"
    by (simp add: sample_defs)
  ultimately have one_fetch: "calls (fst (getCode_calls sample_env ?acts ?s)) = [CacheGetBlob ''c'']"
    by simp
  have same: "snd (getCode_calls sample_env ?acts ?s) =
      [Returned (Inr [104, 105]), Returned (Inr [104, 105]), Returned (Inr [104, 105])]"
    by (simp add: sample_defs getCode_calls_def getCode_start_def store_defs Let_def)
  from shared have "getMapBuffer sample_env (snd (getMapBuffer sample_env ?s)) =
      (fst (getMapBuffer sample_env ?s), snd (getMapBuffer sample_env ?s))"
    by blast
  moreover have "fst (getMapBuffer sample_env ?s) = Inr (Some [1, 2])"
    by (simp add: sample_defs getMapBuffer_def mapBuffer_task_def store_defs Let_def)
  ultimately have again: "getMapBuffer sample_env (snd (getMapBuffer sample_env ?s)) =
      (Inr (Some [1, 2]), snd (getMapBuffer sample_env ?s))"
    by simp
  from h one_fetch same again show ?thesis by blast
qed

text \<open>
  C1, as stated, fails. Two calls of \<open>getStream\<close> on an asset with a content key open
  two streams on the cache; two calls of \<open>getBuffer\<close> that overlap on such an asset
  open two streams as well; and two calls of \<open>getCode\<close> that have both started on an
  asset with only an AST key have called the generator twice.
\<close>

theorem accessors_not_collapsed:
  "count_calls is_fetch
     (snd (getStream sample_env
        (snd (getStream sample_env (sample_asset (Some ''c'') None None))))) = 2 \<and>
   calls (fst (getBuffer_calls sample_env [Call, Call, Resume 0, Resume 1]
      (sample_asset (Some ''c'') None None))) = [CacheGetStream ''c'', CacheGetStream ''c''] \<and>
   count_calls is_generate
     (fst (getCode_calls sample_env [Call, Call] (sample_asset None None (Some ''a'')))) = 2"
  by (simp add: sample_defs getStream_def getCode_calls_def getCode_start_def
      getBuffer_calls_def getBuffer_start_def count_calls_def store_defs Let_def)

text \<open>
  C2. On an asset with an AST key, no content key, no memoized content and no callback
  pending, \<open>getBuffer\<close> calls the generator once and makes no other call, and fills the
  \<open>content\<close> slot; when the generator succeeds the call gives the bytes of the generated
  content and the slot holds that content (as generated, or buffered when the
  generator's promise was already fulfilled). A second \<open>getBuffer\<close>, whatever the
  collaborators have become, makes no call, leaves the slot and gives what the first
  gave.
\<close>

theorem ast_only_getBuffer_generates_once:
  assumes "content s = None" and "contentKey (avalue s) = None"
    and "astKey (avalue s) = Some a" and "thens s = []"
  shows "calls (snd (getBuffer env s)) = calls s @ [GenerateFromAST] \<and>
         content (snd (getBuffer env s)) \<noteq> None \<and>
         (\<forall>out. generateFromAST env (avalue s) = Inr out \<longrightarrow>
            fst (getBuffer env s) = Inr (bytes_of (gen_content out)) \<and>
            content (snd (getBuffer env s)) =
              Some (Inr (if gen_settled env then Buf (bytes_of (gen_content out))
                         else gen_content out))) \<and>
         calls (snd (getBuffer env' (snd (getBuffer env s)))) = calls (snd (getBuffer env s)) \<and>
         content (snd (getBuffer env' (snd (getBuffer env s)))) =
           content (snd (getBuffer env s)) \<and>
         fst (getBuffer env' (snd (getBuffer env s))) = fst (getBuffer env s)"
proof (cases "generateFromAST env (avalue s)")
  case (Inl e)
  with assms show ?thesis
    by (simp add: getBuffer_def getBuffer_start_def store_defs)
next
  case (Inr out)
  with assms show ?thesis
    by (cases "gen_content out")
       (simp_all add: getBuffer_def getBuffer_start_def store_defs)
qed

theorem ast_only_getBuffer_generates_once_witness:
  "content (sample_asset None None (Some ''a'')) = None \<and>
   contentKey (avalue (sample_asset None None (Some ''a''))) = None \<and>
   astKey (avalue (sample_asset None None (Some ''a''))) = Some ''a'' \<and>
   thens (sample_asset None None (Some ''a'')) = [] \<and>
   calls (snd (getBuffer sample_env (sample_asset None None (Some ''a'')))) =
     [GenerateFromAST] \<and>
   content (snd (getBuffer sample_env (sample_asset None None (Some ''a'')))) =
     Some (Inr (Str [111, 107])) \<and>
   fst (getBuffer sample_env (sample_asset None None (Some ''a''))) = Inr [111, 107] \<and>
   calls (snd (getBuffer empty_gen_env
      (snd (getBuffer sample_env (sample_asset None None (Some ''a'')))))) =
     [GenerateFromAST] \<and>
   fst (getBuffer empty_gen_env
      (snd (getBuffer sample_env (sample_asset None None (Some ''a''))))) = Inr [111, 107]"
proof -
  let ?s = "sample_asset None None (Some ''a'')"
  have h: "content ?s = None" "contentKey (avalue ?s) = None"
    "astKey (avalue ?s) = Some ''a''" "thens ?s = []"
    by (simp_all add: sample_defs)
  note once = ast_only_getBuffer_generates_once [OF h, of sample_env empty_gen_env]
  have start: "calls ?s = []"
    by (simp add: sample_defs)
  from once start have first: "calls (snd (getBuffer sample_env ?s)) = [GenerateFromAST]"
    by simp
  have gen: "generateFromAST sample_env (avalue ?s) =
      Inr \<lparr>gen_content = Str [111, 107], gen_map = Some [1, 2]\<rparr>"
    "gen_settled sample_env = False"
    by (simp_all add: sample_defs)
  from once gen have
    "fst (getBuffer sample_env ?s) =
       Inr (bytes_of (gen_content \<lparr>gen_content = Str [111, 107], gen_map = Some [1 :: nat, 2]\<rparr>))"
    "content (snd (getBuffer sample_env ?s)) =
       Some (Inr (gen_content \<lparr>gen_content = Str [111, 107], gen_map = Some [1 :: nat, 2]\<rparr>))"
    by simp_all
  then have memo: "fst (getBuffer sample_env ?s) = Inr [111, 107]"
    "content (snd (getBuffer sample_env ?s)) = Some (Inr (Str [111, 107]))"
    by (simp_all add: utf8_encode_def utf8_char_def)
  from once first memo have second:
    "calls (snd (getBuffer empty_gen_env (snd (getBuffer sample_env ?s)))) = [GenerateFromAST]"
    "fst (getBuffer empty_gen_env (snd (getBuffer sample_env ?s))) = Inr [111, 107]"
    by simp_all
  from h first memo second show ?thesis by blast
qed

text \<open>
  C3. When an asset has no memoized content, no content key and no AST key,
  \<open>getContent\<close> throws the error \<open>Asset has no content\<close>, and so do \<open>getCode\<close>,
  \<open>getBuffer\<close> and \<open>getStream\<close>; the asset is left as it was. When one of the keys is
  present \<open>getContent\<close> does not throw.
\<close>

theorem no_content_is_hard_error:
  "(content s = None \<and> contentKey (avalue s) = None \<and> astKey (avalue s) = None \<longrightarrow>
      getContent env s = (Inl NoContentError, s) \<and>
      getCode env s = (Inl NoContentError, s) \<and>
      getBuffer env s = (Inl NoContentError, s) \<and>
      getStream env s = (Inl NoContentError, s)) \<and>
   (contentKey (avalue s) \<noteq> None \<or> astKey (avalue s) \<noteq> None \<longrightarrow>
      (\<exists>r. fst (getContent env s) = Inr r))"
  by (auto simp: getContent_def getCode_def getCode_start_def getBuffer_def
      getBuffer_start_def getStream_def split: option.splits sum.splits)

theorem no_content_is_hard_error_witness:
  "content (sample_asset None None None) = None \<and>
   contentKey (avalue (sample_asset None None None)) = None \<and>
   astKey (avalue (sample_asset None None None)) = None \<and>
   getContent sample_env (sample_asset None None None) =
     (Inl (JsError ''Asset has no content'' None), sample_asset None None None) \<and>
   getCode sample_env (sample_asset None None None) =
     (Inl (JsError ''Asset has no content'' None), sample_asset None None None) \<and>
   getBuffer sample_env (sample_asset None None None) =
     (Inl (JsError ''Asset has no content'' None), sample_asset None None None) \<and>
   getStream sample_env (sample_asset None None None) =
     (Inl (JsError ''Asset has no content'' None), sample_asset None None None) \<and>
   contentKey (avalue (sample_asset (Some ''c'') None None)) = Some ''c'' \<and>
   fst (getContent sample_env (sample_asset (Some ''c'') None None)) =
     Inr (Producer (FromCache ''c''))"
proof -
  let ?s = "sample_asset None None None"
  let ?c = "sample_asset (Some ''c'') None None"
  have h: "content ?s = None" "contentKey (avalue ?s) = None" "astKey (avalue ?s) = None"
    "contentKey (avalue ?c) = Some ''c''"
    by (simp_all add: sample_defs)
  from no_content_is_hard_error [of ?s sample_env] h have thrown:
    "getContent sample_env ?s = (Inl NoContentError, ?s)"
    "getCode sample_env ?s = (Inl NoContentError, ?s)"
    "getBuffer sample_env ?s = (Inl NoContentError, ?s)"
    "getStream sample_env ?s = (Inl NoContentError, ?s)"
    by blast+
  have given: "fst (getContent sample_env ?c) = Inr (Producer (FromCache ''c''))"
    by (simp add: sample_defs getContent_def)
  from h thrown given show ?thesis
    unfolding NoContentError_def by blast
qed

text \<open>
  C4. On an asset with a map key and an empty \<open>mapBuffer\<close> slot, \<open>getMapBuffer\<close> asks
  the cache for the blob of the map key and gives it. When the cache fails with code
  \<open>ENOENT\<close> and the asset has an AST key, it calls the generator instead and gives the
  buffer of the generated map (nothing when the generator gave no map, the generator's
  error when it failed). Any other failure of the cache, and \<open>ENOENT\<close> on an asset
  without AST key, is the outcome as it is. The outcome is stored in the slot, and a
  second call gives it again without any call, whatever the collaborators have become.
\<close>

theorem getMapBuffer_cache_then_ast:
  assumes "mapKey (avalue s) = Some k" and "mapBuffer s = None"
  shows "(\<forall>b. cache_getBlob env k = Inr b \<longrightarrow>
            fst (getMapBuffer env s) = Inr (Some b) \<and>
            calls (snd (getMapBuffer env s)) = calls s @ [CacheGetBlob k]) \<and>
         (\<forall>err. cache_getBlob env k = Inl err \<and> code err = Some ''ENOENT'' \<and>
                astKey (avalue s) \<noteq> None \<longrightarrow>
            fst (getMapBuffer env s) =
              (case generateFromAST env (avalue s) of
                 Inl e \<Rightarrow> Inl e
               | Inr out \<Rightarrow> Inr (map_option (sm_toBuffer env) (gen_map out))) \<and>
            calls (snd (getMapBuffer env s)) = calls s @ [CacheGetBlob k, GenerateFromAST]) \<and>
         (\<forall>err. cache_getBlob env k = Inl err \<and>
                (code err \<noteq> Some ''ENOENT'' \<or> astKey (avalue s) = None) \<longrightarrow>
            fst (getMapBuffer env s) = Inl err \<and>
            calls (snd (getMapBuffer env s)) = calls s @ [CacheGetBlob k]) \<and>
         mapBuffer (snd (getMapBuffer env s)) = Some (fst (getMapBuffer env s)) \<and>
         getMapBuffer env' (snd (getMapBuffer env s)) =
           (fst (getMapBuffer env s), snd (getMapBuffer env s))"
  using assms
  by (auto simp: getMapBuffer_def mapBuffer_task_def record_call_def Let_def
      split: sum.splits prod.splits)

theorem getMapBuffer_cache_then_ast_witness:
  "fst (getMapBuffer sample_env (sample_asset None (Some ''c'') None)) = Inr (Some [104, 105]) \<and>
   fst (getMapBuffer sample_env (sample_asset None (Some ''m'') (Some ''a''))) =
     Inr (Some [1, 2]) \<and>
   calls (snd (getMapBuffer sample_env (sample_asset None (Some ''m'') (Some ''a'')))) =
     [CacheGetBlob ''m'', GenerateFromAST] \<and>
   fst (getMapBuffer sample_env (sample_asset None (Some ''m'') None)) =
     Inl (JsError ''not found'' (Some ''ENOENT'')) \<and>
   fst (getMapBuffer sample_env (sample_asset None (Some ''x'') (Some ''a''))) =
     Inl (JsError ''read failed'' (Some ''EIO'')) \<and>
   getMapBuffer empty_gen_env
     (snd (getMapBuffer sample_env (sample_asset None (Some ''m'') (Some ''a'')))) =
     (Inr (Some [1, 2]),
      snd (getMapBuffer sample_env (sample_asset None (Some ''m'') (Some ''a''))))"
proof -
  let ?hit = "sample_asset None (Some ''c'') None"
  let ?ast = "sample_asset None (Some ''m'') (Some ''a'')"
  let ?miss = "sample_asset None (Some ''m'') None"
  let ?io = "sample_asset None (Some ''x'') (Some ''a'')"
  have hit: "mapKey (avalue ?hit) = Some ''c''" "mapBuffer ?hit = None"
    "cache_getBlob sample_env ''c'' = Inr [104, 105]"
    by (simp_all add: sample_defs)
  have ast: "mapKey (avalue ?ast) = Some ''m''" "mapBuffer ?ast = None"
    "cache_getBlob sample_env ''m'' = Inl (JsError ''not found'' (Some ''ENOENT''))"
    "code (JsError ''not found'' (Some ''ENOENT'')) = Some ''ENOENT''"
    "astKey (avalue ?ast) \<noteq> None" "calls ?ast = []"
    "generateFromAST sample_env (avalue ?ast) =
       Inr \<lparr>gen_content = Str [111, 107], gen_map = Some [1, 2]\<rparr>"
    "sm_toBuffer sample_env [1, 2] = [1, 2]"
    by (simp_all add: sample_defs)
  have miss: "mapKey (avalue ?miss) = Some ''m''" "mapBuffer ?miss = None"
    "astKey (avalue ?miss) = None"
    by (simp_all add: sample_defs)
  have io: "mapKey (avalue ?io) = Some ''x''" "mapBuffer ?io = None"
    "cache_getBlob sample_env ''x'' = Inl (JsError ''read failed'' (Some ''EIO''))"
    "code (JsError ''read failed'' (Some ''EIO'')) \<noteq> Some ''ENOENT''"
    by (simp_all add: sample_defs)
  from getMapBuffer_cache_then_ast [OF hit(1,2), of sample_env empty_gen_env] hit(3)
  have c1: "fst (getMapBuffer sample_env ?hit) = Inr (Some [104, 105])"
    by blast
  note fallback = getMapBuffer_cache_then_ast [OF ast(1,2), of sample_env empty_gen_env]
  from fallback ast(3,4,5) have
    "fst (getMapBuffer sample_env ?ast) =
       (case generateFromAST sample_env (avalue ?ast) of
          Inl e \<Rightarrow> Inl e
        | Inr out \<Rightarrow> Inr (map_option (sm_toBuffer sample_env) (gen_map out)))"
    "calls (snd (getMapBuffer sample_env ?ast)) = calls ?ast @ [CacheGetBlob ''m'', GenerateFromAST]"
    by blast+
  with ast(6,7,8) have c2: "fst (getMapBuffer sample_env ?ast) = Inr (Some [1, 2])"
    "calls (snd (getMapBuffer sample_env ?ast)) = [CacheGetBlob ''m'', GenerateFromAST]"
    by simp_all
  from getMapBuffer_cache_then_ast [OF miss(1,2), of sample_env empty_gen_env] ast(3) miss(3)
  have c3: "fst (getMapBuffer sample_env ?miss) = Inl (JsError ''not found'' (Some ''ENOENT''))"
    by blast
  from getMapBuffer_cache_then_ast [OF io(1,2), of sample_env empty_gen_env] io(3,4)
  have c4: "fst (getMapBuffer sample_env ?io) = Inl (JsError ''read failed'' (Some ''EIO''))"
    by blast
  from fallback c2(1) have c5: "getMapBuffer empty_gen_env (snd (getMapBuffer sample_env ?ast)) =
     (Inr (Some [1, 2]), snd (getMapBuffer sample_env ?ast))"
    by simp
  from c1 c2 c3 c4 c5 show ?thesis by blast
qed

text \<open>
  C7, as amended. While the \<open>map\<close> slot is empty, \<open>getMap\<close> gives what \<open>getMapBuffer\<close>
  gives, decoded: its error, \<open>undefined\<close> when there are no map bytes, and otherwise the
  source map built from the bytes. A second call gives the same promise and leaves the
  asset as it is. Whatever happens to an asset from its construction on, a source map
  is decoded at most once.
\<close>

theorem getMap_decodes_once:
  "(smap s = None \<longrightarrow>
      fst (getMap env s) =
        (case fst (getMapBuffer env s) of
           Inl e \<Rightarrow> Inl e
         | Inr None \<Rightarrow> Inr JsUndefined
         | Inr (Some b) \<Rightarrow>
             (case new_SourceMap env b of Inl e \<Rightarrow> Inl e | Inr m \<Rightarrow> Inr (Defined m)))) \<and>
   getMap env' (snd (getMap env s)) = (fst (getMap env s), snd (getMap env s)) \<and>
   count_calls is_decode (run_events env evs (new_asset v)) \<le> 1"
proof -
  have "decoded_once (new_asset v :: ('a, 'b) committed_asset)"
    by (simp add: decoded_once_def new_asset_def)
  then have "decoded_once (run_events env evs (new_asset v))"
    by (rule decoded_once_events)
  then have "count_calls is_decode (run_events env evs (new_asset v)) \<le> 1"
    by (simp add: decoded_once_def count_calls_def split: if_splits)
  moreover have "getMap env' (snd (getMap env s)) = (fst (getMap env s), snd (getMap env s))"
    by (auto simp: getMap_def Let_def split: option.splits sum.splits prod.splits)
  moreover have "smap s = None \<longrightarrow>
      fst (getMap env s) =
        (case fst (getMapBuffer env s) of
           Inl e \<Rightarrow> Inl e
         | Inr None \<Rightarrow> Inr JsUndefined
         | Inr (Some b) \<Rightarrow>
             (case new_SourceMap env b of Inl e \<Rightarrow> Inl e | Inr m \<Rightarrow> Inr (Defined m)))"
    by (auto simp: getMap_def Let_def split: option.splits sum.splits prod.splits)
  ultimately show ?thesis by blast
qed

theorem getMap_decodes_once_witness:
  "smap (sample_asset None (Some ''c'') None) = None \<and>
   fst (getMap sample_env (sample_asset None (Some ''c'') None)) = Inr (Defined [104, 105]) \<and>
   fst (getMap sample_env (sample_asset (Some ''c'') None None)) = Inr JsUndefined \<and>
   count_calls is_decode
     (run_events sample_env [CallGetMap, CallGetMapBuffer, CallGetMap, StartGetCode, CallGetMap]
        (sample_asset None (Some ''c'') None)) = 1"
proof -
  let ?s = "sample_asset None (Some ''c'') None"
  let ?n = "sample_asset (Some ''c'') None None"
  let ?evs = "[CallGetMap, CallGetMapBuffer, CallGetMap, StartGetCode, CallGetMap]"
  have h: "smap ?s = None" "smap ?n = None"
    by (simp_all add: sample_defs)
  have buf: "fst (getMapBuffer sample_env ?s) = Inr (Some [104, 105])"
    "fst (getMapBuffer sample_env ?n) = Inr None"
    "new_SourceMap sample_env [104, 105] = Inr [104, 105]"
    by (simp_all add: sample_defs getMapBuffer_def mapBuffer_task_def record_call_def Let_def)
  from getMap_decodes_once [of ?s sample_env sample_env ?evs "asset_keys None (Some ''c'') None"] h(1)
  have "fst (getMap sample_env ?s) =
        (case fst (getMapBuffer sample_env ?s) of
           Inl e \<Rightarrow> Inl e
         | Inr None \<Rightarrow> Inr JsUndefined
         | Inr (Some b) \<Rightarrow>
             (case new_SourceMap sample_env b of Inl e \<Rightarrow> Inl e | Inr m \<Rightarrow> Inr (Defined m)))"
    and most: "count_calls is_decode (run_events sample_env ?evs ?s) \<le> 1"
    unfolding sample_asset_def by blast+
  with buf have c1: "fst (getMap sample_env ?s) = Inr (Defined [104, 105])"
    by simp
  from getMap_decodes_once [of ?n sample_env sample_env "[]" "asset_keys None None None"] h(2)
  have "fst (getMap sample_env ?n) =
        (case fst (getMapBuffer sample_env ?n) of
           Inl e \<Rightarrow> Inl e
         | Inr None \<Rightarrow> Inr JsUndefined
         | Inr (Some b) \<Rightarrow>
             (case new_SourceMap sample_env b of Inl e \<Rightarrow> Inl e | Inr m \<Rightarrow> Inr (Defined m)))"
    by blast
  with buf have c2: "fst (getMap sample_env ?n) = Inr JsUndefined"
    by simp
  have "1 \<le> count_calls is_decode (run_events sample_env ?evs ?s)"
    by (simp add: sample_defs run_events_def count_calls_def getMap_def getMapBuffer_def
        mapBuffer_task_def getCode_start_def store_defs Let_def)
  with most have c3: "count_calls is_decode (run_events sample_env ?evs ?s) = 1"
    by simp
  from h(1) c1 c2 c3 show ?thesis by blast
qed

text \<open>
  C7, as stated, fails. An asset without map key has no map bytes, and the promise of
  \<open>getMap\<close> fulfils with \<open>undefined\<close>, not with \<open>null\<close>; \<open>null\<close> is what \<open>getAST\<close> gives
  on an asset without AST key.
\<close>

theorem getMap_without_bytes_is_not_null:
  "fst (getMapBuffer sample_env (sample_asset (Some ''c'') None None)) = Inr None \<and>
   fst (getMap sample_env (sample_asset (Some ''c'') None None)) = Inr JsUndefined \<and>
   fst (getMap sample_env (sample_asset (Some ''c'') None None)) \<noteq> Inr JsNull \<and>
   fst (getAST sample_env (sample_asset (Some ''c'') None None)) = Inr JsNull"
  by (simp add: sample_defs getMap_def getMapBuffer_def getAST_def Let_def)

text \<open>
  C8. \<open>getBuffer\<close> gives a buffer of length zero, and no error, when the content is
  empty: when the stream the cache opens for the content key delivers no byte, when the
  memoized content is an empty string, an empty buffer or absent, and when the content
  generated from the AST has no byte.
\<close>

theorem empty_content_gives_empty_buffer:
  "(content s = None \<and> contentKey (avalue s) = Some k \<and> cache_getStream env k = Inr [] \<longrightarrow>
      fst (getBuffer env s) = Inr []) \<and>
   (content s = Some (Inr c) \<and> bytes_of c = [] \<longrightarrow> fst (getBuffer env s) = Inr []) \<and>
   (content s = None \<and> contentKey (avalue s) = None \<and> astKey (avalue s) = Some a \<and>
    generateFromAST env (avalue s) = Inr out \<and> bytes_of (gen_content out) = [] \<longrightarrow>
      fst (getBuffer env s) = Inr [])"
proof (intro conjI impI)
  assume "content s = None \<and> contentKey (avalue s) = Some k \<and> cache_getStream env k = Inr []"
  then show "fst (getBuffer env s) = Inr []"
    by (simp add: getBuffer_def getBuffer_start_def store_defs split: prod.splits)
next
  assume "content s = Some (Inr c) \<and> bytes_of c = []"
  then show "fst (getBuffer env s) = Inr []"
    by (cases c) (simp_all add: getBuffer_def getBuffer_start_def store_defs split: prod.splits)
next
  assume "content s = None \<and> contentKey (avalue s) = None \<and> astKey (avalue s) = Some a \<and>
    generateFromAST env (avalue s) = Inr out \<and> bytes_of (gen_content out) = []"
  then show "fst (getBuffer env s) = Inr []"
    by (simp add: getBuffer_def getBuffer_start_def store_defs split: prod.splits)
qed

theorem empty_content_gives_empty_buffer_witness:
  "cache_getStream sample_env ''e'' = Inr [] \<and>
   fst (getBuffer sample_env (sample_asset (Some ''e'') None None)) = Inr [] \<and>
   bytes_of (Str []) = [] \<and>
   fst (getBuffer sample_env
     ((sample_asset None None None)\<lparr>content := Some (Inr (Str []))\<rparr>)) = Inr [] \<and>
   fst (getBuffer sample_env
     ((sample_asset None None None)\<lparr>content := Some (Inr Nullish)\<rparr>)) = Inr [] \<and>
   fst (getBuffer empty_gen_env (sample_asset None None (Some ''a''))) = Inr []"
proof -
  let ?e = "sample_asset (Some ''e'') None None"
  let ?m = "\<lambda>c. (sample_asset None None None)\<lparr>content := Some (Inr c)\<rparr>"
  let ?g = "sample_asset None None (Some ''a'')"
  have e: "content ?e = None" "contentKey (avalue ?e) = Some ''e''"
    "cache_getStream sample_env ''e'' = Inr []"
    by (simp_all add: sample_defs)
  have m: "content (?m (Str [])) = Some (Inr (Str []))" "bytes_of (Str []) = []"
    "content (?m Nullish) = Some (Inr Nullish)" "bytes_of Nullish = []"
    by (simp_all add: utf8_encode_def)
  have g: "content ?g = None" "contentKey (avalue ?g) = None" "astKey (avalue ?g) = Some ''a''"
    "generateFromAST empty_gen_env (avalue ?g) = Inr \<lparr>gen_content = Str [], gen_map = None\<rparr>"
    "bytes_of (gen_content \<lparr>gen_content = Str [], gen_map = (None :: bytes option)\<rparr>) = []"
    by (simp_all add: sample_defs utf8_encode_def)
  from empty_content_gives_empty_buffer [of ?e "''e''" sample_env] e
  have c1: "fst (getBuffer sample_env ?e) = Inr []" by blast
  from empty_content_gives_empty_buffer [of "?m (Str [])" _ sample_env "Str []"] m(1,2)
  have c2: "fst (getBuffer sample_env (?m (Str []))) = Inr []" by blast
  from empty_content_gives_empty_buffer [of "?m Nullish" _ sample_env Nullish] m(3,4)
  have c3: "fst (getBuffer sample_env (?m Nullish)) = Inr []" by blast
  from empty_content_gives_empty_buffer
    [of ?g _ empty_gen_env _ "''a''" "\<lparr>gen_content = Str [], gen_map = None\<rparr>"] g
  have c4: "fst (getBuffer empty_gen_env ?g) = Inr []" by blast
  from e(3) m(2) c1 c2 c3 c4 show ?thesis by blast
qed

text \<open>
  C10. An asset built without a map key never has a \<open>mapBuffer\<close> promise: whatever has
  happened to it since its construction, with whatever content key and AST key,
  \<open>getMapBuffer\<close> gives a promise fulfilled with \<open>undefined\<close>, makes no call to the cache
  or to any other collaborator, and leaves the asset as it is.
\<close>

theorem getMapBuffer_without_mapKey:
  assumes "mapKey v = None"
  shows "getMapBuffer env (run_events env' evs (new_asset v)) =
           (Inr None, run_events env' evs (new_asset v))"
proof -
  have "no_map_key (new_asset v :: ('a, 'b) committed_asset)"
    using assms by (simp add: no_map_key_def new_asset_def)
  then have "no_map_key (run_events env' evs (new_asset v) :: ('a, 'b) committed_asset)"
    by (rule no_map_key_events)
  then show ?thesis
    by (simp add: no_map_key_def getMapBuffer_def)
qed

theorem getMapBuffer_without_mapKey_witness:
  "mapKey (asset_keys (Some ''c'') None (Some ''a'')) = None \<and>
   getMapBuffer sample_env
     (run_events sample_env [CallGetMap, StartGetCode, CallGetMapBuffer, CallGetAST]
        (new_asset (asset_keys (Some ''c'') None (Some ''a'')))) =
     (Inr None,
      run_events sample_env [CallGetMap, StartGetCode, CallGetMapBuffer, CallGetAST]
        (new_asset (asset_keys (Some ''c'') None (Some ''a''))))"
proof -
  have h: "mapKey (asset_keys (Some ''c'') None (Some ''a'')) = None"
    by (simp add: asset_keys_def)
  from h getMapBuffer_without_mapKey [OF h, of sample_env sample_env
      "[CallGetMap, StartGetCode, CallGetMapBuffer, CallGetAST]"]
  show ?thesis by blast
qed

section \<open>Properties of bundles and symbol resolution\<close>





text \<open>
  C6. The resolver is a total function: it returns on every graph, since each step
  adds a pair of the graph's symbol tables to the visited ones. When an asset exports
  a name from a second asset and the second exports it from the first, resolving the
  name on the first gives a result whose symbol is \<open>undefined\<close>, with any boundary or
  none.
\<close>

theorem reexport_cycle_is_undefined:
  assumes "lookup_symbol g a x = Some ea"
    and "lookup_reexport g a (local_name ea) = Some (b, x)"
    and "lookup_symbol g b x = Some eb"
    and "lookup_reexport g b (local_name eb) = Some (a, x)"
  shows "res_symbol (getSymbolResolution g a x boundary) = Undefined"
proof -
  note first = resolve.simps [of g boundary "[]" a x None]
  note second = resolve.simps [of g boundary "[(a, x)]" b x "entry_loc ea"]
  note third = resolve.simps [of g boundary "[(b, x), (a, x)]" a x "entry_loc eb"]
  show ?thesis
    using assms by (simp add: getSymbolResolution_def first second third)
qed

theorem reexport_cycle_is_undefined_witness:
  "lookup_symbol cycle_graph ''a'' ''X'' = Some \<lparr>local_name = ''x1'', entry_loc = Some 1\<rparr> \<and>
   lookup_reexport cycle_graph ''a'' ''x1'' = Some (''b'', ''X'') \<and>
   lookup_symbol cycle_graph ''b'' ''X'' = Some \<lparr>local_name = ''x2'', entry_loc = Some 2\<rparr> \<and>
   lookup_reexport cycle_graph ''b'' ''x2'' = Some (''a'', ''X'') \<and>
   res_symbol (getSymbolResolution cycle_graph ''a'' ''X'' (None :: (unit, unit) bundle_t option)) =
     Undefined"
proof -
  have h: "lookup_symbol cycle_graph ''a'' ''X'' = Some \<lparr>local_name = ''x1'', entry_loc = Some 1\<rparr>"
    "lookup_reexport cycle_graph ''a'' (local_name \<lparr>local_name = ''x1'', entry_loc = Some 1\<rparr>) =
       Some (''b'', ''X'')"
    "lookup_symbol cycle_graph ''b'' ''X'' = Some \<lparr>local_name = ''x2'', entry_loc = Some 2\<rparr>"
    "lookup_reexport cycle_graph ''b'' (local_name \<lparr>local_name = ''x2'', entry_loc = Some 2\<rparr>) =
       Some (''a'', ''X'')"
    by (simp_all add: cycle_graph_def lookup_symbol_def lookup_reexport_def)
  have "res_symbol (getSymbolResolution cycle_graph ''a'' ''X''
      (None :: (unit, unit) bundle_t option)) = Undefined"
    by (rule reexport_cycle_is_undefined [OF h])
  moreover have "lookup_reexport cycle_graph ''a'' ''x1'' = Some (''b'', ''X'')"
    "lookup_reexport cycle_graph ''b'' ''x2'' = Some (''a'', ''X'')"
    using h(2,4) by simp_all
  ultimately show ?thesis using h(1,3) by blast
qed

text \<open>
  C9. With an entry asset, \<open>createBundle\<close> gives a bundle whose type, environment and
  key are the asset's. Without one it gives a bundle exactly when the options supply
  a unique key, a type and an environment, and these are the bundle's. Options of the
  type \<open>CreateBundleOptions\<close> always give a bundle, and a bundle \<open>createBundle\<close> gives
  contains no asset.
\<close>

theorem createBundle_infers_or_requires:
  "(\<forall>a. entryAsset opts = Some a \<longrightarrow>
      (\<exists>b. createBundle opts = Inr b \<and> bundle_type b = asset_type a \<and>
           bundle_env b = asset_env a \<and> bundle_key b = asset_ident a \<and> members b = [])) \<and>
   (entryAsset opts = None \<longrightarrow>
      (case createBundle opts of
         Inr b \<Rightarrow>
           uniqueKey opts = Some (bundle_key b) \<and> opt_type opts = Some (bundle_type b) \<and>
           opt_env opts = Some (bundle_env b) \<and> members b = []
       | Inl err \<Rightarrow> uniqueKey opts = None \<or> opt_type opts = None \<or> opt_env opts = None)) \<and>
   (well_typed_options opts \<longrightarrow> (\<exists>b. createBundle opts = Inr b \<and> members b = []))"
  by (auto simp: createBundle_def well_typed_options_def split: option.splits sum.splits)

theorem createBundle_infers_or_requires_witness:
  "entryAsset entry_options = Some \<lparr>asset_ident = ''a'', asset_type = ''js'', asset_env = 7\<rparr> \<and>
   createBundle entry_options =
     Inr \<lparr>bundle_key = ''a'', bundle_type = ''js'', bundle_env = 7, bundle_target = (),
          members = []\<rparr> \<and>
   entryAsset explicit_options = None \<and>
   createBundle explicit_options =
     Inr \<lparr>bundle_key = ''shared'', bundle_type = ''css'', bundle_env = 3, bundle_target = (),
          members = []\<rparr> \<and>
   well_typed_options explicit_options"
proof -
  have h: "entryAsset entry_options =
      Some \<lparr>asset_ident = ''a'', asset_type = ''js'', asset_env = 7\<rparr>"
    "entryAsset explicit_options = None" "well_typed_options explicit_options"
    by (simp_all add: entry_options_def explicit_options_def well_typed_options_def)
  from createBundle_infers_or_requires [of entry_options] h(1) obtain b where
    b: "createBundle entry_options = Inr b" "bundle_type b = ''js''" "bundle_env b = 7"
      "bundle_key b = ''a''" "members b = []"
    by auto
  then have c1: "createBundle entry_options =
     Inr \<lparr>bundle_key = ''a'', bundle_type = ''js'', bundle_env = 7, bundle_target = (),
          members = []\<rparr>"
    by (cases b) simp
  have c2: "createBundle explicit_options =
     Inr \<lparr>bundle_key = ''shared'', bundle_type = ''css'', bundle_env = 3, bundle_target = (),
          members = []\<rparr>"
    by (simp add: createBundle_def explicit_options_def)
  from h c1 c2 show ?thesis by blast
qed

end
